theory Spec2Isabelle
  imports Main "HOL-Library.Word" "HOL-Library.Sublist"
begin

unbundle bit_operations_syntax

section \<open>The one-shot gzip driver \<open>gz_the_works.c\<close>\<close>

text \<open>
  The program is a single \<open>main\<close>: it initialises a zlib deflate stream for gzip output,
  attaches a gzip header descriptor, compresses one fixed text in one call and writes the
  produced bytes to standard output. zlib, \<open>time\<close> and \<open>fwrite\<close> are external to the
  program; the first two are parameters of the model, the third appends to a byte list.
\<close>

subsection \<open>Bytes, C string literals, constants of \<open>zlib.h\<close>\<close>

type_synonym byte = "8 word"

definition byte_of_char :: "char \<Rightarrow> byte" where
  "byte_of_char c = word_of_nat (of_char c)"

text \<open>The array a C string literal denotes: its characters and the terminating NUL.\<close>

definition c_literal :: "string \<Rightarrow> byte list" where
  "c_literal s = map byte_of_char s @ [0]"

text \<open>
  \<open>strlen\<close> counts the bytes before the first NUL. (On memory without a NUL the C function
  reads on; every array it is applied to here is a literal and has its terminator.)
\<close>

definition strlen :: "byte list \<Rightarrow> nat" where
  "strlen p = length (takeWhile (\<lambda>b. b \<noteq> 0) p)"

text \<open>
  \<open>#define TEXT "This is a test of the emergency broadcast system.\n"
  "Remember, this is only a test.\n"\<close>
\<close>

definition TEXT :: "byte list" where
  "TEXT = c_literal (''This is a test of the emergency broadcast system.'' @ [CHR 0x0A] @
                     ''Remember, this is only a test.'' @ [CHR 0x0A])"

definition Z_OK :: int where [simp]: "Z_OK = 0"
definition Z_STREAM_END :: int where [simp]: "Z_STREAM_END = 1"
definition Z_STREAM_ERROR :: int where [simp]: "Z_STREAM_ERROR = - 2"
definition Z_MEM_ERROR :: int where [simp]: "Z_MEM_ERROR = - 4"
definition Z_BUF_ERROR :: int where [simp]: "Z_BUF_ERROR = - 5"
definition Z_FINISH :: int where [simp]: "Z_FINISH = 4"
definition Z_DEFLATED :: int where [simp]: "Z_DEFLATED = 8"

subsection \<open>The two records of the program\<close>

text \<open>
  \<open>gz_header\<close>: the header descriptor. A pointer field is \<open>None\<close> for \<open>Z_NULL\<close> and
  otherwise holds the bytes of the array it points to. The field \<open>text\<close> of the C struct is
  \<open>text_flag\<close> here and \<open>done\<close> is \<open>done_flag\<close> (both names are reserved words).
\<close>

record gz_header =
  text_flag :: int
  time :: "64 word"
  xflags :: int
  os :: int
  extra :: "byte list option"
  extra_len :: "32 word"
  extra_max :: "32 word"
  name :: "byte list option"
  name_max :: "32 word"
  comment :: "byte list option"
  comm_max :: "32 word"
  hcrc :: int
  done_flag :: int

text \<open>
  \<open>z_stream\<close>: the fields the program touches, and the library's internal state.
  \<open>next_in\<close> is the memory from the pointer on (\<open>[]\<close> for the null pointer of the
  zero-initialised struct); \<open>next_out\<close> only ever points into the array \<open>out\<close> and is the
  offset into it.
\<close>

record 'st z_stream =
  next_in :: "byte list"
  avail_in :: "32 word"
  next_out :: nat
  avail_out :: "32 word"
  state :: "'st option"

text \<open>\<open>z_stream strm = {0}\<close>\<close>

definition zero_stream :: "'st z_stream" where
  "zero_stream = \<lparr>next_in = [], avail_in = 0, next_out = 0, avail_out = 0, state = None\<rparr>"

subsection \<open>The library as a parameter\<close>

text \<open>
  What each zlib entry point answers is a parameter: the status it returns, its new internal
  state and, for \<open>deflate\<close>, how many input bytes it consumed and which bytes it produced,
  given the input window (\<open>avail_in\<close> bytes at \<open>next_in\<close>), the size of the output window
  (\<open>avail_out\<close>) and the flush mode.
\<close>

record 'st zlib =
  lib_deflateInit2 :: "int \<Rightarrow> int \<Rightarrow> int \<Rightarrow> int \<Rightarrow> int \<Rightarrow> int \<times> 'st option"
  lib_deflateSetHeader :: "'st option \<Rightarrow> gz_header \<Rightarrow> int \<times> 'st option"
  lib_deflate :: "'st option \<Rightarrow> byte list \<Rightarrow> nat \<Rightarrow> int \<Rightarrow> int \<times> nat \<times> byte list \<times> 'st option"
  lib_deflateEnd :: "'st option \<Rightarrow> int \<times> 'st option"

subsection \<open>The state of a run\<close>

text \<open>
  The stream, the stack array \<open>out\<close>, what has been written to standard output, and the
  external calls made so far, in order: each library call with the status it returned,
  \<open>fwrite\<close> with its byte count.
\<close>

datatype call = Init2 int | SetHeader int | Deflate int | End int | Fwrite nat

record 'st world =
  strm :: "'st z_stream"
  out :: "byte list"
  stdout :: "byte list"
  calls :: "call list"

definition deflateInit2 ::
  "'st zlib \<Rightarrow> 'st world \<Rightarrow> int \<Rightarrow> int \<Rightarrow> int \<Rightarrow> int \<Rightarrow> int \<Rightarrow> int \<times> 'st world" where
  "deflateInit2 lib w level method windowBits memLevel strategy =
     (let (ret, st) = lib_deflateInit2 lib level method windowBits memLevel strategy
      in (ret, w\<lparr>strm := (strm w)\<lparr>state := st\<rparr>, calls := calls w @ [Init2 ret]\<rparr>))"

definition deflateSetHeader :: "'st zlib \<Rightarrow> 'st world \<Rightarrow> gz_header \<Rightarrow> int \<times> 'st world" where
  "deflateSetHeader lib w head =
     (let (ret, st) = lib_deflateSetHeader lib (state (strm w)) head
      in (ret, w\<lparr>strm := (strm w)\<lparr>state := st\<rparr>, calls := calls w @ [SetHeader ret]\<rparr>))"

text \<open>
  \<open>deflate\<close> reads at most \<open>avail_in\<close> bytes at \<open>next_in\<close> and writes at most \<open>avail_out\<close>
  bytes at \<open>next_out\<close>, advancing the two pointers and decreasing the two counts by what it
  consumed and produced (the contract of \<open>zlib.h\<close>). The call is modelled with this frame:
  whatever the library answers, only a prefix of the output window is overwritten.
\<close>

definition deflate :: "'st zlib \<Rightarrow> 'st world \<Rightarrow> int \<Rightarrow> int \<times> 'st world" where
  "deflate lib w flush =
     (let s = strm w;
          inp = take (unat (avail_in s)) (next_in s);
          room = min (unat (avail_out s)) (length (out w) - next_out s);
          (ret, used, produced, st) = lib_deflate lib (state s) inp room flush;
          consumed = min used (length inp);
          written = take room produced
      in (ret,
          w\<lparr>strm := s\<lparr>next_in := drop consumed (next_in s),
                      avail_in := avail_in s - word_of_nat consumed,
                      next_out := next_out s + length written,
                      avail_out := avail_out s - word_of_nat (length written),
                      state := st\<rparr>,
            out := take (next_out s) (out w) @ written @
                   drop (next_out s + length written) (out w),
            calls := calls w @ [Deflate ret]\<rparr>))"

definition deflateEnd :: "'st zlib \<Rightarrow> 'st world \<Rightarrow> int \<times> 'st world" where
  "deflateEnd lib w =
     (let (ret, st) = lib_deflateEnd lib (state (strm w))
      in (ret, w\<lparr>strm := (strm w)\<lparr>state := st\<rparr>, calls := calls w @ [End ret]\<rparr>))"

text \<open>
  \<open>fwrite(buf, 1, n, stdout)\<close>: appends the first \<open>n\<close> bytes of the array to standard output.
  Reading past the end of the array is undefined behaviour: \<open>None\<close>. (The sink takes every
  byte; the program does not look at what \<open>fwrite\<close> returns.)
\<close>

definition fwrite :: "byte list \<Rightarrow> 64 word \<Rightarrow> 'st world \<Rightarrow> 'st world option" where
  "fwrite buf n w =
     (if unat n \<le> length buf
      then Some (w\<lparr>stdout := stdout w @ take (unat n) buf, calls := calls w @ [Fwrite (unat n)]\<rparr>)
      else None)"

subsection \<open>\<open>main\<close>\<close>

text \<open>
  The header descriptor \<open>head\<close> is declared without an initialiser: \<open>head0\<close> is what the
  stack held, and the eight assignments overwrite eight of its fields.
\<close>

definition fill_head :: "64 word \<Rightarrow> gz_header \<Rightarrow> gz_header" where
  "fill_head now head0 =
     head0\<lparr>text_flag := 1,
           time := now,
           os := 3,
           extra := Some (c_literal (''x1'' @ [CHR 0x04, CHR 0x00] @ ''abcd'')),
           extra_len := 8,
           name := Some (c_literal ''foo.bar''),
           comment := Some (c_literal ''no comment''),
           hcrc := 1\<rparr>"

text \<open>
  \<open>main\<close>, statement by statement. \<open>now\<close> is what \<open>time(NULL)\<close> returns, \<open>out0\<close> the content
  of the uninitialised array \<open>unsigned char out[256]\<close>. The result is the exit status and the
  final state, or \<open>None\<close> if the run has undefined behaviour. \<open>sizeof(out) - strm.avail_out\<close>
  is computed in \<open>size_t\<close> (64 bits, wrapping).
\<close>

definition main :: "'st zlib \<Rightarrow> 64 word \<Rightarrow> gz_header \<Rightarrow> (nat \<Rightarrow> byte) \<Rightarrow> (int \<times> 'st world) option" where
  "main lib now head0 out0 =
     (let w = \<lparr>strm = zero_stream, out = map out0 [0..<256], stdout = [], calls = []\<rparr>;
          (ret, w) = deflateInit2 lib w (- 1) 8 (15 + 16) 8 0
      in if ret \<noteq> Z_OK then Some (1, w)
         else
           let head = fill_head now head0;
               (_, w) = deflateSetHeader lib w head;
               w = w\<lparr>strm := (strm w)\<lparr>avail_in := word_of_nat (strlen TEXT)\<rparr>\<rparr>;
               w = w\<lparr>strm := (strm w)\<lparr>next_in := TEXT\<rparr>\<rparr>;
               w = w\<lparr>strm := (strm w)\<lparr>avail_out := 256\<rparr>\<rparr>;
               w = w\<lparr>strm := (strm w)\<lparr>next_out := 0\<rparr>\<rparr>;
               (ret, w) = deflate lib w Z_FINISH
           in if ret \<noteq> Z_STREAM_END then Some (1, w)
              else
                let (_, w) = deflateEnd lib w
                in case fwrite (out w) (256 - ucast (avail_out (strm w))) w of
                     None \<Rightarrow> None
                   | Some w \<Rightarrow> Some (0, w))"

subsection \<open>What the library answered in a run\<close>

text \<open>
  The answers of the three library calls of a run, in the order \<open>main\<close> makes them:
  \<open>deflateInit2\<close> with the six constants of the source, \<open>deflateSetHeader\<close> with the filled
  descriptor on the state the first call left, \<open>deflate\<close> on the 81 bytes of \<open>TEXT\<close> before
  its NUL with 256 bytes of room.
\<close>

definition init_answer :: "'st zlib \<Rightarrow> int \<times> 'st option" where
  "init_answer lib = lib_deflateInit2 lib (- 1) 8 31 8 0"

definition header_answer :: "'st zlib \<Rightarrow> 64 word \<Rightarrow> gz_header \<Rightarrow> int \<times> 'st option" where
  "header_answer lib now head0 =
     lib_deflateSetHeader lib (snd (init_answer lib)) (fill_head now head0)"

definition deflate_answer ::
  "'st zlib \<Rightarrow> 64 word \<Rightarrow> gz_header \<Rightarrow> int \<times> nat \<times> byte list \<times> 'st option" where
  "deflate_answer lib now head0 =
     lib_deflate lib (snd (header_answer lib now head0)) (take 81 TEXT) 256 Z_FINISH"

section \<open>The gzip format\<close>

subsection \<open>CRC-32 and little-endian fields\<close>

definition crc_bit :: "32 word \<Rightarrow> 32 word" where
  "crc_bit c = (if bit c 0 then drop_bit 1 c XOR 0xEDB88320 else drop_bit 1 c)"

definition crc_byte :: "32 word \<Rightarrow> byte \<Rightarrow> 32 word" where
  "crc_byte c b = (crc_bit ^^ 8) (c XOR ucast b)"

definition crc32 :: "byte list \<Rightarrow> 32 word" where
  "crc32 bs = NOT (foldl crc_byte (NOT 0) bs)"

text \<open>The \<open>n\<close> low bytes of a word, least significant first.\<close>

definition le_bytes :: "nat \<Rightarrow> 'a::len word \<Rightarrow> byte list" where
  "le_bytes n w = map (\<lambda>i. ucast (drop_bit (8 * i) w)) [0..<n]"

text \<open>The value of a little-endian field.\<close>

fun le_value :: "byte list \<Rightarrow> nat" where
  "le_value [] = 0"
| "le_value (b # bs) = unat b + 256 * le_value bs"

subsection \<open>The compression library, for gzip output\<close>

text \<open>
  Modelled from the spec: zlib itself, which the program links against and whose code is not
  part of the repository. Sections 4.1 and 6 of the specification give what the model
  follows: initialisation fails if a parameter is invalid or allocation fails; the header
  descriptor is registered on the context; one finishing call produces a gzip member (the
  10-byte fixed region with the five flag bits, the modification time and the OS byte, the
  extra field behind its 2-byte little-endian length, the NUL-terminated name and comment,
  the 2-byte header CRC, the DEFLATE payload, the CRC-32 and the length of the input) and
  reports stream end only if the member fits the output window. The magic bytes, the
  method byte and the positions of the flag bits are those of the gzip file format
  (RFC 1952); the parameter ranges are those of the zlib manual. The DEFLATE encoder
  \<open>dfl\<close>, whether allocation succeeds and the OS code of the platform (used when no
  descriptor is attached) are parameters. Only what the program uses is modelled:
  configurations that select the gzip wrapper, and the finishing flush mode.
\<close>

datatype phase = Fresh | Draining "byte list" | Finished

record deflate_state =
  level :: int
  strategy :: int
  gzhead :: "gz_header option"
  status :: phase

definition ref_deflateInit2 ::
  "bool \<Rightarrow> int \<Rightarrow> int \<Rightarrow> int \<Rightarrow> int \<Rightarrow> int \<Rightarrow> int \<times> deflate_state option" where
  "ref_deflateInit2 alloc_ok lvl method windowBits memLevel strat =
     (let lvl = (if lvl = - 1 then 6 else lvl)
      in if method \<noteq> Z_DEFLATED \<or> memLevel < 1 \<or> memLevel > 9 \<or> lvl < 0 \<or> lvl > 9 \<or>
            strat < 0 \<or> strat > 4 \<or> windowBits < 16 + 9 \<or> windowBits > 16 + 15
         then (Z_STREAM_ERROR, None)
         else if \<not> alloc_ok then (Z_MEM_ERROR, None)
         else (Z_OK, Some \<lparr>level = lvl, strategy = strat, gzhead = None, status = Fresh\<rparr>))"

definition ref_deflateSetHeader ::
  "deflate_state option \<Rightarrow> gz_header \<Rightarrow> int \<times> deflate_state option" where
  "ref_deflateSetHeader st head =
     (case st of
        None \<Rightarrow> (Z_STREAM_ERROR, None)
      | Some s \<Rightarrow> (Z_OK, Some (s\<lparr>gzhead := Some head\<rparr>)))"

definition gzip_flags :: "gz_header \<Rightarrow> byte" where
  "gzip_flags h =
     (if text_flag h \<noteq> 0 then 1 else 0) + (if hcrc h \<noteq> 0 then 2 else 0) +
     (if extra h = None then 0 else 4) + (if name h = None then 0 else 8) +
     (if comment h = None then 0 else 16)"

definition xfl_of :: "int \<Rightarrow> int \<Rightarrow> byte" where
  "xfl_of lvl strat = (if lvl = 9 then 2 else if strat \<ge> 2 \<or> lvl < 2 then 4 else 0)"

text \<open>The string at a pointer: the bytes up to its NUL, and the NUL.\<close>

definition c_string :: "byte list \<Rightarrow> byte list" where
  "c_string p = takeWhile (\<lambda>b. b \<noteq> 0) p @ [0]"

definition gzip_fixed :: "byte \<Rightarrow> gz_header \<Rightarrow> byte list" where
  "gzip_fixed xfl h =
     [0x1f, 0x8b, 8, gzip_flags h] @ le_bytes 4 (time h) @ [xfl, word_of_int (os h)]"

definition gzip_extra :: "gz_header \<Rightarrow> byte list" where
  "gzip_extra h =
     (case extra h of
        None \<Rightarrow> []
      | Some e \<Rightarrow> le_bytes 2 (extra_len h) @ take (unat (extra_len h AND 0xffff)) e)"

definition gzip_name :: "gz_header \<Rightarrow> byte list" where
  "gzip_name h = (case name h of None \<Rightarrow> [] | Some p \<Rightarrow> c_string p)"

definition gzip_comment :: "gz_header \<Rightarrow> byte list" where
  "gzip_comment h = (case comment h of None \<Rightarrow> [] | Some p \<Rightarrow> c_string p)"

definition gzip_header_body :: "byte \<Rightarrow> gz_header \<Rightarrow> byte list" where
  "gzip_header_body xfl h = gzip_fixed xfl h @ gzip_extra h @ gzip_name h @ gzip_comment h"

definition gzip_header :: "byte \<Rightarrow> byte \<Rightarrow> gz_header option \<Rightarrow> byte list" where
  "gzip_header os_code xfl attached =
     (case attached of
        None \<Rightarrow> [0x1f, 0x8b, 8, 0, 0, 0, 0, 0, xfl, os_code]
      | Some h \<Rightarrow>
          gzip_header_body xfl h @
          (if hcrc h \<noteq> 0 then le_bytes 2 (crc32 (gzip_header_body xfl h)) else []))"

definition gzip_trailer :: "byte list \<Rightarrow> byte list" where
  "gzip_trailer inp = le_bytes 4 (crc32 inp) @ le_bytes 4 (word_of_nat (length inp) :: 32 word)"

definition gzip_member ::
  "byte \<Rightarrow> (byte list \<Rightarrow> byte list) \<Rightarrow> deflate_state \<Rightarrow> byte list \<Rightarrow> byte list" where
  "gzip_member os_code dfl s inp =
     gzip_header os_code (xfl_of (level s) (strategy s)) (gzhead s) @ dfl inp @ gzip_trailer inp"

text \<open>
  Delivering bytes into an output window of \<open>room\<close> bytes: stream end if all of them fit,
  otherwise \<open>Z_OK\<close> with the rest kept pending.
\<close>

definition deliver ::
  "deflate_state \<Rightarrow> nat \<Rightarrow> nat \<Rightarrow> byte list \<Rightarrow> int \<times> nat \<times> byte list \<times> deflate_state option" where
  "deliver s used room bytes =
     (if length bytes \<le> room
      then (Z_STREAM_END, used, bytes, Some (s\<lparr>status := Finished\<rparr>))
      else (Z_OK, used, take room bytes, Some (s\<lparr>status := Draining (drop room bytes)\<rparr>)))"

definition ref_deflate ::
  "byte \<Rightarrow> (byte list \<Rightarrow> byte list) \<Rightarrow> deflate_state option \<Rightarrow> byte list \<Rightarrow> nat \<Rightarrow> int \<Rightarrow>
   int \<times> nat \<times> byte list \<times> deflate_state option" where
  "ref_deflate os_code dfl st inp room flush =
     (case st of
        None \<Rightarrow> (Z_STREAM_ERROR, 0, [], None)
      | Some s \<Rightarrow>
          if flush \<noteq> Z_FINISH then (Z_STREAM_ERROR, 0, [], Some s)
          else if room = 0 then (Z_BUF_ERROR, 0, [], Some s)
          else (case status s of
                  Fresh \<Rightarrow> deliver s (length inp) room (gzip_member os_code dfl s inp)
                | Draining rest \<Rightarrow>
                    if inp \<noteq> [] then (Z_BUF_ERROR, 0, [], Some s) else deliver s 0 room rest
                | Finished \<Rightarrow>
                    if inp \<noteq> [] then (Z_BUF_ERROR, 0, [], Some s)
                    else (Z_STREAM_END, 0, [], Some s)))"

definition ref_deflateEnd :: "deflate_state option \<Rightarrow> int \<times> deflate_state option" where
  "ref_deflateEnd st = (case st of None \<Rightarrow> (Z_STREAM_ERROR, None) | Some s \<Rightarrow> (Z_OK, None))"

definition ref_zlib :: "byte \<Rightarrow> bool \<Rightarrow> (byte list \<Rightarrow> byte list) \<Rightarrow> deflate_state zlib" where
  "ref_zlib os_code alloc_ok dfl =
     \<lparr>lib_deflateInit2 = ref_deflateInit2 alloc_ok,
      lib_deflateSetHeader = ref_deflateSetHeader,
      lib_deflate = ref_deflate os_code dfl,
      lib_deflateEnd = ref_deflateEnd\<rparr>"

text \<open>
  The state of the library model when \<open>main\<close> calls \<open>deflate\<close>: level 6 for the default
  level, the default strategy, the descriptor attached. And the header bytes of the
  member up to the header CRC, for that descriptor.
\<close>

definition run_state :: "64 word \<Rightarrow> gz_header \<Rightarrow> deflate_state" where
  "run_state now head0 =
     \<lparr>level = 6, strategy = 0, gzhead = Some (fill_head now head0), status = Fresh\<rparr>"

definition head_bytes :: "64 word \<Rightarrow> byte list" where
  "head_bytes now =
     [0x1f, 0x8b, 8, 0x1f] @ le_bytes 4 now @
     [0, 3, 8, 0, 0x78, 0x31, 4, 0, 0x61, 0x62, 0x63, 0x64] @
     c_literal ''foo.bar'' @ c_literal ''no comment''"

section \<open>A gzip decoder\<close>

text \<open>
  The reader's side of the format, written from RFC 1951 (DEFLATE) and RFC 1952 (gzip):
  what "decompressing with a standards-compliant gzip decoder" means below. It decodes a
  file that holds one member and checks everything the format lets a reader check.
\<close>

subsection \<open>Bits\<close>

text \<open>Bytes are read from their least significant bit.\<close>

definition bits_of_byte :: "byte \<Rightarrow> bool list" where
  "bits_of_byte b = map (bit b) [0..<8]"

definition bitstream :: "byte list \<Rightarrow> bool list" where
  "bitstream bs = concat (map bits_of_byte bs)"

fun bits_value :: "bool list \<Rightarrow> nat" where
  "bits_value [] = 0"
| "bits_value (b # bs) = of_bool b + 2 * bits_value bs"

definition get_bits :: "nat \<Rightarrow> bool list \<Rightarrow> (nat \<times> bool list) option" where
  "get_bits n bs = (if length bs < n then None else Some (bits_value (take n bs), drop n bs))"

text \<open>\<open>k\<close> fields of \<open>n\<close> bits each.\<close>

fun get_fields :: "nat \<Rightarrow> nat \<Rightarrow> bool list \<Rightarrow> (nat list \<times> bool list) option" where
  "get_fields 0 n bs = Some ([], bs)"
| "get_fields (Suc k) n bs =
     (case get_bits n bs of
        None \<Rightarrow> None
      | Some (v, bs1) \<Rightarrow>
          (case get_fields k n bs1 of
             None \<Rightarrow> None
           | Some (vs, bs2) \<Rightarrow> Some (v # vs, bs2)))"

subsection \<open>Huffman codes\<close>

text \<open>
  A code is given by the code length of each symbol (0: the symbol is unused). The codes
  of one length are consecutive, in symbol order, and start where RFC 1951, 3.2.2 says.
\<close>

fun first_code :: "nat list \<Rightarrow> nat \<Rightarrow> nat" where
  "first_code ls 0 = 0"
| "first_code ls (Suc l) =
     2 * (first_code ls l + (if l = 0 then 0 else length (filter (\<lambda>x. x = l) ls)))"

definition code_of :: "nat list \<Rightarrow> nat \<Rightarrow> nat" where
  "code_of ls s = first_code ls (ls ! s) + length (filter (\<lambda>x. x = ls ! s) (take s ls))"

type_synonym huffman = "((nat \<times> nat) \<times> nat) list"

definition huffman_of :: "nat list \<Rightarrow> huffman" where
  "huffman_of ls =
     map (\<lambda>s. ((ls ! s, code_of ls s), s)) (filter (\<lambda>s. ls ! s \<noteq> 0) [0..<length ls])"

text \<open>Code bits arrive most significant first; no code is longer than 15 bits.\<close>

fun decode_sym :: "huffman \<Rightarrow> nat \<Rightarrow> nat \<Rightarrow> bool list \<Rightarrow> (nat \<times> bool list) option" where
  "decode_sym h len code [] = None"
| "decode_sym h len code (b # bs) =
     (let code' = 2 * code + of_bool b; len' = Suc len
      in case map_of h (len', code') of
           Some s \<Rightarrow> Some (s, bs)
         | None \<Rightarrow> if len' \<ge> 15 then None else decode_sym h len' code' bs)"

definition fixed_lit :: huffman where
  "fixed_lit = huffman_of (replicate 144 8 @ replicate 112 9 @ replicate 24 7 @ replicate 8 8)"

definition fixed_dist :: huffman where
  "fixed_dist = huffman_of (replicate 30 5)"

definition len_base :: "nat list" where
  "len_base = [3, 4, 5, 6, 7, 8, 9, 10, 11, 13, 15, 17, 19, 23, 27, 31, 35, 43, 51, 59,
               67, 83, 99, 115, 131, 163, 195, 227, 258]"

definition len_extra :: "nat list" where
  "len_extra = [0, 0, 0, 0, 0, 0, 0, 0, 1, 1, 1, 1, 2, 2, 2, 2, 3, 3, 3, 3,
                4, 4, 4, 4, 5, 5, 5, 5, 0]"

definition dist_base :: "nat list" where
  "dist_base = [1, 2, 3, 4, 5, 7, 9, 13, 17, 25, 33, 49, 65, 97, 129, 193, 257, 385, 513,
                769, 1025, 1537, 2049, 3073, 4097, 6145, 8193, 12289, 16385, 24577]"

definition dist_extra :: "nat list" where
  "dist_extra = [0, 0, 0, 0, 1, 1, 2, 2, 3, 3, 4, 4, 5, 5, 6, 6, 7, 7, 8, 8,
                 9, 9, 10, 10, 11, 11, 12, 12, 13, 13]"

subsection \<open>Blocks\<close>

text \<open>Copying \<open>n\<close> bytes from \<open>d\<close> bytes back; the source may overlap what is written.\<close>

fun lz_copy :: "nat \<Rightarrow> nat \<Rightarrow> byte list \<Rightarrow> byte list" where
  "lz_copy 0 d buf = buf"
| "lz_copy (Suc n) d buf = lz_copy n d (buf @ [buf ! (length buf - d)])"

text \<open>
  The symbols of a compressed block, up to its end-of-block symbol. Every symbol takes at
  least one bit, so the number of bits left is fuel enough.
\<close>

fun inflate_codes ::
  "nat \<Rightarrow> huffman \<Rightarrow> huffman \<Rightarrow> byte list \<Rightarrow> bool list \<Rightarrow> (byte list \<times> bool list) option" where
  "inflate_codes 0 lt dt buf bs = None"
| "inflate_codes (Suc fuel) lt dt buf bs =
     (case decode_sym lt 0 0 bs of
        None \<Rightarrow> None
      | Some (sy, bs1) \<Rightarrow>
          if sy < 256 then inflate_codes fuel lt dt (buf @ [word_of_nat sy]) bs1
          else if sy = 256 then Some (buf, bs1)
          else if sy > 285 then None
          else
            (case get_bits (len_extra ! (sy - 257)) bs1 of
               None \<Rightarrow> None
             | Some (le, bs2) \<Rightarrow>
                 (case decode_sym dt 0 0 bs2 of
                    None \<Rightarrow> None
                  | Some (ds, bs3) \<Rightarrow>
                      if ds > 29 then None
                      else
                        (case get_bits (dist_extra ! ds) bs3 of
                           None \<Rightarrow> None
                         | Some (de, bs4) \<Rightarrow>
                             let d = dist_base ! ds + de
                             in if d > length buf then None
                                else inflate_codes fuel lt dt
                                       (lz_copy (len_base ! (sy - 257) + le) d buf) bs4))))"

text \<open>A stored block: to the byte boundary, LEN, its complement, LEN bytes.\<close>

definition inflate_stored :: "byte list \<Rightarrow> bool list \<Rightarrow> (byte list \<times> bool list) option" where
  "inflate_stored buf bs =
     (case get_fields 2 16 (drop (length bs mod 8) bs) of
        Some ([len, nlen], bs1) \<Rightarrow>
          if len + nlen \<noteq> 65535 then None
          else (case get_fields len 8 bs1 of
                  None \<Rightarrow> None
                | Some (vs, bs2) \<Rightarrow> Some (buf @ map word_of_nat vs, bs2))
      | _ \<Rightarrow> None)"

text \<open>The code lengths of a dynamic block, run-length coded with the code length code.\<close>

fun read_lengths ::
  "nat \<Rightarrow> huffman \<Rightarrow> nat \<Rightarrow> nat list \<Rightarrow> bool list \<Rightarrow> (nat list \<times> bool list) option" where
  "read_lengths 0 h n buf bs = (if length buf = n then Some (buf, bs) else None)"
| "read_lengths (Suc fuel) h n buf bs =
     (if length buf = n then Some (buf, bs)
      else if length buf > n then None
      else
        (case decode_sym h 0 0 bs of
           None \<Rightarrow> None
         | Some (s, bs1) \<Rightarrow>
             if s < 16 then read_lengths fuel h n (buf @ [s]) bs1
             else if s = 16 then
               (if buf = [] then None
                else (case get_bits 2 bs1 of
                        None \<Rightarrow> None
                      | Some (r, bs2) \<Rightarrow>
                          read_lengths fuel h n (buf @ replicate (3 + r) (last buf)) bs2))
             else if s = 17 then
               (case get_bits 3 bs1 of
                  None \<Rightarrow> None
                | Some (r, bs2) \<Rightarrow> read_lengths fuel h n (buf @ replicate (3 + r) 0) bs2)
             else if s = 18 then
               (case get_bits 7 bs1 of
                  None \<Rightarrow> None
                | Some (r, bs2) \<Rightarrow> read_lengths fuel h n (buf @ replicate (11 + r) 0) bs2)
             else None))"

definition clen_order :: "nat list" where
  "clen_order = [16, 17, 18, 0, 8, 7, 9, 6, 10, 5, 11, 4, 12, 3, 13, 2, 14, 1, 15]"

definition read_dynamic :: "bool list \<Rightarrow> ((huffman \<times> huffman) \<times> bool list) option" where
  "read_dynamic bs =
     (case get_bits 5 bs of
        None \<Rightarrow> None
      | Some (hlit, bs1) \<Rightarrow>
     (case get_bits 5 bs1 of
        None \<Rightarrow> None
      | Some (hdist, bs2) \<Rightarrow>
     (case get_bits 4 bs2 of
        None \<Rightarrow> None
      | Some (hclen, bs3) \<Rightarrow>
     (case get_fields (hclen + 4) 3 bs3 of
        None \<Rightarrow> None
      | Some (cls, bs4) \<Rightarrow>
          let given = zip clen_order cls;
              cl = map (\<lambda>s. case map_of given s of None \<Rightarrow> 0 | Some l \<Rightarrow> l) [0..<19];
              n = hlit + 257 + hdist + 1
          in if hlit + 257 > 286 \<or> hdist + 1 > 30 then None
             else (case read_lengths (length bs4) (huffman_of cl) n [] bs4 of
                     None \<Rightarrow> None
                   | Some (ls, bs5) \<Rightarrow>
                       Some ((huffman_of (take (hlit + 257) ls),
                              huffman_of (drop (hlit + 257) ls)), bs5))))))"

text \<open>
  The blocks of a stream, up to the one marked final. A block takes at least three bits,
  so the number of bits is fuel enough.
\<close>

fun inflate_blocks :: "nat \<Rightarrow> byte list \<Rightarrow> bool list \<Rightarrow> (byte list \<times> bool list) option" where
  "inflate_blocks 0 buf bs = None"
| "inflate_blocks (Suc fuel) buf bs =
     (case bs of
        bfinal # t0 # t1 # rest \<Rightarrow>
          (case (if \<not> t0 \<and> \<not> t1 then inflate_stored buf rest
                 else if t0 \<and> \<not> t1 then inflate_codes (length rest) fixed_lit fixed_dist buf rest
                 else if \<not> t0 \<and> t1 then
                   (case read_dynamic rest of
                      None \<Rightarrow> None
                    | Some ((lt, dt), bs1) \<Rightarrow> inflate_codes (length bs1) lt dt buf bs1)
                 else None) of
             None \<Rightarrow> None
           | Some (buf', rest') \<Rightarrow>
               if bfinal then Some (buf', rest') else inflate_blocks fuel buf' rest')
      | _ \<Rightarrow> None)"

text \<open>
  A whole DEFLATE stream: the final block must end in the last byte given.
\<close>

definition inflate :: "byte list \<Rightarrow> byte list option" where
  "inflate bs =
     (case inflate_blocks (8 * length bs) [] (bitstream bs) of
        None \<Rightarrow> None
      | Some (data, rest) \<Rightarrow> if length rest < 8 then Some data else None)"

subsection \<open>The member\<close>

record gz_info =
  i_text :: bool
  i_mtime :: nat
  i_xfl :: byte
  i_os :: byte
  i_extra :: "byte list option"
  i_name :: "byte list option"
  i_comment :: "byte list option"
  i_hcrc :: "nat option"

text \<open>A NUL-terminated string: its bytes without the NUL, and what follows the NUL.\<close>

fun get_zstring :: "byte list \<Rightarrow> (byte list \<times> byte list) option" where
  "get_zstring [] = None"
| "get_zstring (b # bs) =
     (if b = 0 then Some ([], bs)
      else (case get_zstring bs of None \<Rightarrow> None | Some (s, r) \<Rightarrow> Some (b # s, r)))"

definition opt_extra :: "bool \<Rightarrow> byte list \<Rightarrow> (byte list option \<times> byte list) option" where
  "opt_extra present bs =
     (if \<not> present then Some (None, bs)
      else (case bs of
              l0 # l1 # r \<Rightarrow>
                if length r < le_value [l0, l1] then None
                else Some (Some (take (le_value [l0, l1]) r), drop (le_value [l0, l1]) r)
            | _ \<Rightarrow> None))"

definition opt_zstring :: "bool \<Rightarrow> byte list \<Rightarrow> (byte list option \<times> byte list) option" where
  "opt_zstring present bs =
     (if \<not> present then Some (None, bs)
      else (case get_zstring bs of None \<Rightarrow> None | Some (s, r) \<Rightarrow> Some (Some s, r)))"

text \<open>
  The header CRC is the two low bytes of the CRC-32 of all header bytes before it.
\<close>

definition opt_hcrc :: "bool \<Rightarrow> byte list \<Rightarrow> byte list \<Rightarrow> (nat option \<times> byte list) option" where
  "opt_hcrc present before bs =
     (if \<not> present then Some (None, bs)
      else (case bs of
              c0 # c1 # r \<Rightarrow>
                if [c0, c1] = le_bytes 2 (crc32 before) then Some (Some (le_value [c0, c1]), r)
                else None
            | _ \<Rightarrow> None))"

definition parse_header :: "byte list \<Rightarrow> (gz_info \<times> byte list) option" where
  "parse_header bs =
     (case bs of
        id1 # id2 # cm # flg # m0 # m1 # m2 # m3 # xfl # os_byte # r0 \<Rightarrow>
          if id1 \<noteq> 0x1f \<or> id2 \<noteq> 0x8b \<or> cm \<noteq> 8 \<or> flg AND 0xE0 \<noteq> 0 then None
          else
            (case opt_extra (bit flg 2) r0 of
               None \<Rightarrow> None
             | Some (ex, r1) \<Rightarrow>
            (case opt_zstring (bit flg 3) r1 of
               None \<Rightarrow> None
             | Some (nm, r2) \<Rightarrow>
            (case opt_zstring (bit flg 4) r2 of
               None \<Rightarrow> None
             | Some (cm, r3) \<Rightarrow>
            (case opt_hcrc (bit flg 1) (take (length bs - length r3) bs) r3 of
               None \<Rightarrow> None
             | Some (hc, r4) \<Rightarrow>
                 Some (\<lparr>i_text = bit flg 0, i_mtime = le_value [m0, m1, m2, m3],
                        i_xfl = xfl, i_os = os_byte, i_extra = ex, i_name = nm,
                        i_comment = cm, i_hcrc = hc\<rparr>, r4)))))
      | _ \<Rightarrow> None)"

text \<open>
  The member: header, DEFLATE stream, and the eight bytes of the trailer, which must be
  the CRC-32 and the length (modulo \<open>2^32\<close>) of the decompressed data.
\<close>

definition gunzip :: "byte list \<Rightarrow> (gz_info \<times> byte list) option" where
  "gunzip bs =
     (case parse_header bs of
        None \<Rightarrow> None
      | Some (info, rest) \<Rightarrow>
          if length rest < 8 then None
          else
            (case inflate (take (length rest - 8) rest) of
               None \<Rightarrow> None
             | Some data \<Rightarrow>
                 let tr = drop (length rest - 8) rest
                 in if le_value (take 4 tr) = unat (crc32 data) \<and>
                       le_value (drop 4 tr) = length data mod 2 ^ 32
                    then Some (info, data)
                    else None))"

subsection \<open>DEFLATE encoders\<close>

text \<open>
  Two encoders that use stored blocks only, to run the library model on: one block for the
  whole input (inputs below 65536 bytes), and a wasteful one with a block for every byte.
\<close>

definition dfl_stored :: "byte list \<Rightarrow> byte list" where
  "dfl_stored x =
     [1] @ le_bytes 2 (word_of_nat (length x) :: 16 word) @
     le_bytes 2 (word_of_nat (65535 - length x) :: 16 word) @ x"

fun dfl_bytewise :: "byte list \<Rightarrow> byte list" where
  "dfl_bytewise [] = [1, 0, 0, 0xff, 0xff]"
| "dfl_bytewise [b] = [1, 1, 0, 0xfe, 0xff, b]"
| "dfl_bytewise (b # bs) = [0, 1, 0, 0xfe, 0xff, b] @ dfl_bytewise bs"

text \<open>
  Modelled from the spec: the DEFLATE encoder of the library, of which section 6 says only
  that the member holds "the DEFLATE-compressed payload of the fixed text constant". For
  the text of the program it gives the 69 bytes zlib (1.2.13) emits for it at the default
  level with the parameters of the program: one final block in the fixed Huffman code, 56
  literals and 6 matches. A run passes it no other input; any other input goes into a
  stored block.
\<close>

definition text_payload :: "byte list" where
  "text_payload =
     [11, 201, 200, 44, 86, 0, 162, 68, 133, 146, 212, 226, 18, 133, 252, 52,
      133, 146, 140, 84, 133, 212, 220, 212, 162, 244, 212, 188, 228, 74, 133, 164,
      162, 252, 196, 148, 228, 68, 160, 84, 113, 101, 113, 73, 106, 174, 30, 87,
      16, 80, 50, 55, 41, 181, 72, 7, 168, 18, 162, 55, 63, 47, 167, 18,
      106, 128, 30, 23, 0]"

definition zlib_encoder :: "byte list \<Rightarrow> byte list" where
  "zlib_encoder inp = (if inp = take 81 TEXT then text_payload else dfl_stored inp)"

text \<open>A descriptor of zeros and an array of zeros, to run \<open>main\<close> on.\<close>

definition zero_head :: gz_header where
  "zero_head =
     \<lparr>text_flag = 0, time = 0, xflags = 0, os = 0, extra = None, extra_len = 0, extra_max = 0,
      name = None, name_max = 0, comment = None, comm_max = 0, hcrc = 0, done_flag = 0\<rparr>"

definition zero_out :: "nat \<Rightarrow> byte" where
  "zero_out i = 0"


definition written :: "(int \<times> 'st world) option \<Rightarrow> byte list" where
  "written r = (case r of None \<Rightarrow> [] | Some (ex, w) \<Rightarrow> stdout w)"


subsection \<open>Auxiliary definitions\<close>

text \<open>
  For the proofs about the fixed Huffman code: its code lengths, the length and code of
  each symbol in closed form (RFC 1951, 3.2.6), and the symbol of a length and code. And
  the bits of \<open>text_payload\<close> behind the three header bits of its block.
\<close>

definition fixed_lengths :: "nat list" where
  "fixed_lengths = replicate 144 8 @ replicate 112 9 @ replicate 24 7 @ replicate 8 8"

definition fixed_key :: "nat \<Rightarrow> nat \<times> nat" where
  "fixed_key s = (if s < 144 then (8, 48 + s) else if s < 256 then (9, 256 + s)
                  else if s < 280 then (7, s - 256) else (8, s - 88))"

definition fixed_lookup :: "nat \<Rightarrow> nat \<Rightarrow> nat option" where
  "fixed_lookup l c =
     (if l = 7 \<and> c < 24 then Some (256 + c)
      else if l = 8 \<and> 48 \<le> c \<and> c < 192 then Some (c - 48)
      else if l = 8 \<and> 192 \<le> c \<and> c < 200 then Some (c + 88)
      else if l = 9 \<and> 400 \<le> c \<and> c < 512 then Some (c - 256)
      else None)"

definition payload_bits :: "bool list" where
  "payload_bits =
     [True, False, False, False, False, True, False, False, True, False, False, True,
      True, False, False, False, True, False, False, True, True, False, False, True,
      True, False, True, False, False, False, True, True, False, True, False, True,
      False, False, False, False, False, False, False, False, False, False, True, False,
      False, False, True, False, True, False, False, True, False, False, False, True,
      False, True, False, True, False, False, False, False, True, False, True, False,
      False, True, False, False, True, False, False, True, False, True, False, True,
      True, False, True, False, False, False, True, True, True, False, True, False,
      False, True, False, False, False, True, False, True, False, False, False, False,
      True, False, False, True, True, True, True, True, True, False, False, True,
      False, True, True, False, False, True, False, True, False, False, False, False,
      True, False, True, False, False, True, False, False, True, False, False, True,
      True, False, False, False, True, False, False, True, False, True, False, True,
      False, True, False, True, False, False, False, False, True, False, False, True,
      False, True, False, True, True, False, False, True, True, True, False, True,
      True, False, False, True, False, True, False, True, True, False, True, False,
      False, False, True, False, True, False, False, True, False, True, True, True,
      True, False, False, True, False, True, False, True, True, False, False, True,
      True, True, True, False, True, False, False, True, False, False, True, True,
      True, False, True, False, True, False, False, True, False, True, False, True,
      False, False, False, False, True, False, False, True, False, False, True, False,
      True, False, True, False, False, False, True, False, True, False, False, True,
      True, True, True, True, True, False, False, True, False, False, False, True,
      True, False, False, True, False, True, False, False, True, False, False, True,
      False, False, True, True, True, False, False, True, False, False, False, True,
      False, False, False, False, False, False, True, False, True, False, False, True,
      False, True, False, True, False, True, False, False, False, True, True, True,
      False, True, False, True, False, False, True, True, False, True, False, False,
      False, True, True, True, False, True, False, False, True, False, False, True,
      False, False, True, False, True, False, True, True, False, False, True, True,
      True, False, True, False, True, False, True, True, True, True, False, False,
      False, True, True, True, False, True, False, True, False, False, False, False,
      False, True, False, False, False, False, False, False, False, True, False, True,
      False, False, True, False, False, True, True, False, False, True, True, True,
      False, True, True, False, False, True, False, False, True, False, True, False,
      False, True, False, True, False, True, True, False, True, False, False, False,
      True, False, False, True, False, True, True, True, False, False, False, False,
      False, False, False, False, True, False, True, False, True, False, True, False,
      False, True, False, False, False, False, True, False, False, False, True, False,
      True, True, True, True, False, True, True, False, False, True, True, True,
      True, True, True, False, False, True, True, True, True, False, True, False,
      False, True, True, True, False, False, True, False, True, False, True, False,
      False, True, False, False, False, False, True, False, True, False, True, True,
      False, False, False, False, False, False, False, False, True, False, True, True,
      True, True, False, False, False, True, True, True, False, True, False, False,
      False, False, False, False, False, False, False, False, False]"

section \<open>Properties\<close>

lemma strlen_TEXT: "strlen TEXT = 81"
  by (simp add: strlen_def TEXT_def c_literal_def byte_of_char_def)

subsection \<open>The paths of \<open>main\<close>\<close>

lemma unat_256_sub: "k \<le> 256 \<Longrightarrow> unat (256 - word_of_nat k :: 32 word) = 256 - k"
  by (simp add: unat_sub_if' unat_of_nat word_le_nat_alt)

lemma size_t_sub:
  assumes k: "k \<le> 256"
  shows "unat (256 - ucast (256 - word_of_nat k :: 32 word) :: 64 word) = k"
proof -
  have a: "unat (ucast (256 - word_of_nat k :: 32 word) :: 64 word) = 256 - k"
    using unat_256_sub [OF k] by (simp add: unsigned_ucast_eq take_bit_nat_eq_self)
  have "unat (256 - ucast (256 - word_of_nat k :: 32 word) :: 64 word) = 256 - (256 - k)"
    using a by (simp add: unat_sub_if' word_le_nat_alt)
  then show ?thesis using k by simp
qed

lemma main_init_failed:
  assumes "fst (init_answer lib) \<noteq> Z_OK"
  shows "\<exists>w. main lib now head0 out0 = Some (1, w) \<and> stdout w = [] \<and> out w = map out0 [0..<256] \<and>
    calls w = [Init2 (fst (init_answer lib))]"
  using assms
  by (simp add: main_def deflateInit2_def init_answer_def Let_def case_prod_beta)

lemma main_deflate_failed:
  assumes "fst (init_answer lib) = Z_OK" and "fst (deflate_answer lib now head0) \<noteq> Z_STREAM_END"
  shows "\<exists>w. main lib now head0 out0 = Some (1, w) \<and> stdout w = [] \<and> length (out w) = 256 \<and>
    calls w = [Init2 Z_OK, SetHeader (fst (header_answer lib now head0)),
               Deflate (fst (deflate_answer lib now head0))]"
  using assms
  by (simp add: main_def deflateInit2_def deflateSetHeader_def deflate_def init_answer_def
      header_answer_def deflate_answer_def strlen_TEXT Let_def case_prod_beta)

lemma main_success:
  assumes "fst (init_answer lib) = Z_OK" and "fst (deflate_answer lib now head0) = Z_STREAM_END"
  shows "\<exists>w. main lib now head0 out0 = Some (0, w) \<and>
    stdout w = take 256 (fst (snd (snd (deflate_answer lib now head0)))) \<and>
    out w = stdout w @ map out0 [length (stdout w)..<256] \<and>
    avail_out (strm w) = 256 - word_of_nat (length (stdout w)) \<and>
    calls w = [Init2 Z_OK, SetHeader (fst (header_answer lib now head0)),
               Deflate Z_STREAM_END,
               End (fst (lib_deflateEnd lib (snd (snd (snd (deflate_answer lib now head0)))))),
               Fwrite (length (stdout w))]"
  using assms
  apply (simp add: main_def deflateInit2_def deflateSetHeader_def deflate_def init_answer_def
      header_answer_def deflate_answer_def strlen_TEXT Let_def deflateEnd_def fwrite_def case_prod_beta)
  apply (auto simp add: size_t_sub drop_map min_def)
  done


lemma main_total: "\<exists>ex w. main lib now head0 out0 = Some (ex, w)"
proof (cases "fst (init_answer lib) = Z_OK")
  case False
  then show ?thesis using main_init_failed [of lib now head0 out0] by blast
next
  case True
  show ?thesis
  proof (cases "fst (deflate_answer lib now head0) = Z_STREAM_END")
    case False
    then show ?thesis using main_deflate_failed [OF True, of now head0 out0] by blast
  next
    case e: True
    show ?thesis using main_success [OF True e, of out0] by blast
  qed
qed

text \<open>
  C2. In every run in which the compression call returns a status other than
  \<open>Z_STREAM_END\<close>, the program exits with status 1 and has written nothing to standard
  output: the output is empty and no \<open>fwrite\<close> was made.
\<close>

theorem compress_failure_writes_nothing:
  assumes run: "main lib now head0 out0 = Some (ex, w)"
    and call: "Deflate r \<in> set (calls w)"
    and fail: "r \<noteq> Z_STREAM_END"
  shows "ex = 1 \<and> stdout w = [] \<and> (\<forall>n. Fwrite n \<notin> set (calls w))"
proof (cases "fst (init_answer lib) = Z_OK")
  case False
  then show ?thesis using main_init_failed [of lib now head0 out0] run call by auto
next
  case True
  show ?thesis
  proof (cases "fst (deflate_answer lib now head0) = Z_STREAM_END")
    case False
    then show ?thesis using main_deflate_failed [OF True, of now head0 out0] run by auto
  next
    case e: True
    show ?thesis using main_success [OF True e, of out0] run call fail by auto
  qed
qed

text \<open>
  C4. The exit status is 1 if \<open>deflateInit2\<close> does not return \<open>Z_OK\<close>, 1 if \<open>deflate\<close>
  does not return \<open>Z_STREAM_END\<close>, and 0 otherwise; every run ends with one of the two.
\<close>

theorem exit_status:
  "\<exists>w. main lib now head0 out0 =
     Some (if fst (init_answer lib) \<noteq> Z_OK then 1
           else if fst (deflate_answer lib now head0) \<noteq> Z_STREAM_END then 1
           else 0, w)"
proof (cases "fst (init_answer lib) = Z_OK")
  case False
  then show ?thesis using main_init_failed [of lib now head0 out0] by auto
next
  case True
  show ?thesis
  proof (cases "fst (deflate_answer lib now head0) = Z_STREAM_END")
    case False
    then show ?thesis using main_deflate_failed [OF True, of now head0 out0] True by auto
  next
    case e: True
    show ?thesis using main_success [OF True e, of out0] True e by auto
  qed
qed

lemma success_answers:
  assumes run: "main lib now head0 out0 = Some (0, w)"
  shows "fst (init_answer lib) = Z_OK \<and> fst (deflate_answer lib now head0) = Z_STREAM_END"
proof (cases "fst (init_answer lib) = Z_OK")
  case False
  then show ?thesis using main_init_failed [of lib now head0 out0] run by auto
next
  case True
  show ?thesis
  proof (cases "fst (deflate_answer lib now head0) = Z_STREAM_END")
    case False
    then show ?thesis using main_deflate_failed [OF True, of now head0 out0] run by auto
  next
    case e: True
    show ?thesis using True e by simp
  qed
qed

text \<open>
  C6. A run that exits with status 0 has written to standard output exactly the first
  \<open>256 - avail_out\<close> bytes of the output buffer, in one \<open>fwrite\<close> that is its last call:
  these are the bytes the compression call produced, with nothing added.
\<close>

theorem emit_exact:
  assumes run: "main lib now head0 out0 = Some (0, w)"
  shows "unat (avail_out (strm w)) \<le> 256 \<and>
         length (stdout w) = 256 - unat (avail_out (strm w)) \<and>
         stdout w = take (256 - unat (avail_out (strm w))) (out w) \<and>
         stdout w = take 256 (fst (snd (snd (deflate_answer lib now head0)))) \<and>
         (\<exists>rh re. calls w = [Init2 Z_OK, SetHeader rh, Deflate Z_STREAM_END, End re,
                              Fwrite (256 - unat (avail_out (strm w)))])"
proof -
  from success_answers [OF run]
  have i: "fst (init_answer lib) = Z_OK" and d: "fst (deflate_answer lib now head0) = Z_STREAM_END"
    by simp_all
  from main_success [OF i d, of out0] run
  have s: "stdout w = take 256 (fst (snd (snd (deflate_answer lib now head0))))"
    and o: "out w = stdout w @ map out0 [length (stdout w)..<256]"
    and a: "avail_out (strm w) = 256 - word_of_nat (length (stdout w))"
    and c: "calls w = [Init2 Z_OK, SetHeader (fst (header_answer lib now head0)),
               Deflate Z_STREAM_END,
               End (fst (lib_deflateEnd lib (snd (snd (snd (deflate_answer lib now head0)))))),
               Fwrite (length (stdout w))]"
    by auto
  have l: "length (stdout w) \<le> 256" by (subst s) simp
  have u: "unat (avail_out (strm w)) = 256 - length (stdout w)"
    using unat_256_sub [OF l] a by simp
  have n: "256 - unat (avail_out (strm w)) = length (stdout w)"
    using u l by simp
  have "take (length (stdout w)) (out w) = stdout w" by (subst o) simp
  then have t: "stdout w = take (256 - unat (avail_out (strm w))) (out w)"
    by (simp only: n)
  have c': "\<exists>rh re. calls w = [Init2 Z_OK, SetHeader rh, Deflate Z_STREAM_END, End re,
                              Fwrite (256 - unat (avail_out (strm w)))]"
    unfolding n c by blast
  have "unat (avail_out (strm w)) \<le> 256" by (simp add: u)
  moreover have "length (stdout w) = 256 - unat (avail_out (strm w))" by (simp only: n)
  ultimately show ?thesis using t s c' by blast
qed

text \<open>
  C7. If \<open>deflateInit2\<close> does not return \<open>Z_OK\<close>, the program exits with status 1 and the
  initialisation is the only call it made: no header is attached, nothing is compressed,
  nothing is written.
\<close>

theorem init_failure_stops:
  assumes "fst (init_answer lib) \<noteq> Z_OK"
  shows "\<exists>w. main lib now head0 out0 = Some (1, w) \<and>
              calls w = [Init2 (fst (init_answer lib))] \<and> stdout w = []"
  using main_init_failed [OF assms, of now head0 out0] by blast

text \<open>
  C9. Every run ends (without undefined behaviour) having written at most 256 bytes to
  standard output, and what it wrote is a prefix of the 256-byte array \<open>out\<close>.
\<close>

theorem output_within_buffer:
  "\<exists>ex w. main lib now head0 out0 = Some (ex, w) \<and> length (out w) = 256 \<and>
           length (stdout w) \<le> 256 \<and> prefix (stdout w) (out w)"
proof (cases "fst (init_answer lib) = Z_OK")
  case False
  then show ?thesis using main_init_failed [of lib now head0 out0] by auto
next
  case True
  show ?thesis
  proof (cases "fst (deflate_answer lib now head0) = Z_STREAM_END")
    case False
    then show ?thesis using main_deflate_failed [OF True, of now head0 out0] by auto
  next
    case e: True
    from main_success [OF True e, of out0] obtain w where
      m: "main lib now head0 out0 = Some (0, w)"
      and s: "stdout w = take 256 (fst (snd (snd (deflate_answer lib now head0))))"
      and o: "out w = stdout w @ map out0 [length (stdout w)..<256]" by blast
    have l: "length (stdout w) \<le> 256" by (subst s) simp
    have "length (out w) = 256" using l by (subst o) simp
    moreover have "prefix (stdout w) (out w)" by (subst o) simp
    ultimately show ?thesis using m l by blast
  qed
qed

subsection \<open>Runs on the library model\<close>

lemma length_le_bytes: "length (le_bytes n w) = n"
  by (simp add: le_bytes_def)

lemma le_bytes_2: "le_bytes 2 w = [ucast w, ucast (drop_bit 8 w)]"
  by (simp add: le_bytes_def upt_conv_Cons)

lemma le_bytes_4:
  "le_bytes 4 w = [ucast w, ucast (drop_bit 8 w), ucast (drop_bit 16 w), ucast (drop_bit 24 w)]"
  by (simp add: le_bytes_def upt_conv_Cons)

lemma length_TEXT: "length TEXT = 82"
  by (simp add: TEXT_def c_literal_def)

lemma ref_init_ok:
  "init_answer (ref_zlib oc True dfl) =
     (Z_OK, Some \<lparr>level = 6, strategy = 0, gzhead = None, status = Fresh\<rparr>)"
  by (simp add: init_answer_def ref_zlib_def ref_deflateInit2_def)

lemma ref_init_fail: "init_answer (ref_zlib oc False dfl) = (Z_MEM_ERROR, None)"
  by (simp add: init_answer_def ref_zlib_def ref_deflateInit2_def)

lemma ref_header_answer:
  "header_answer (ref_zlib oc True dfl) now head0 = (Z_OK, Some (run_state now head0))"
  by (simp add: header_answer_def ref_init_ok run_state_def)
     (simp add: ref_zlib_def ref_deflateSetHeader_def)

lemma ref_deflate_answer:
  "deflate_answer (ref_zlib oc True dfl) now head0 =
     deliver (run_state now head0) 81 256
       (gzip_member oc dfl (run_state now head0) (take 81 TEXT))"
  by (simp add: deflate_answer_def ref_header_answer)
     (simp add: ref_zlib_def ref_deflate_def run_state_def length_TEXT)

lemma header_body: "gzip_header_body (xfl_of 6 0) (fill_head now head0) = head_bytes now"
  by (simp add: gzip_header_body_def gzip_fixed_def gzip_flags_def gzip_extra_def gzip_name_def
      gzip_comment_def fill_head_def xfl_of_def head_bytes_def c_string_def c_literal_def
      byte_of_char_def le_bytes_2)

lemma run_member:
  "gzip_member oc dfl (run_state now head0) inp =
     head_bytes now @ le_bytes 2 (crc32 (head_bytes now)) @ dfl inp @ gzip_trailer inp"
  by (simp add: gzip_member_def run_state_def gzip_header_def header_body)
     (simp add: fill_head_def)

lemma length_head_bytes: "length (head_bytes now) = 39"
  by (simp add: head_bytes_def c_literal_def length_le_bytes)

lemma length_run_member:
  "length (gzip_member oc dfl (run_state now head0) inp) = 49 + length (dfl inp)"
  by (simp add: run_member length_head_bytes length_le_bytes gzip_trailer_def)

lemma parse_run_header:
  "parse_header (head_bytes now @ le_bytes 2 (crc32 (head_bytes now)) @ rest) =
     Some (\<lparr>i_text = True, i_mtime = le_value (le_bytes 4 now), i_xfl = 0, i_os = 3,
            i_extra = Some [0x78, 0x31, 4, 0, 0x61, 0x62, 0x63, 0x64],
            i_name = Some (map byte_of_char ''foo.bar''),
            i_comment = Some (map byte_of_char ''no comment''),
            i_hcrc = Some (le_value (le_bytes 2 (crc32 (head_bytes now))))\<rparr>, rest)"
  by (simp add: parse_header_def head_bytes_def le_bytes_4 le_bytes_2 c_literal_def
      opt_extra_def opt_zstring_def opt_hcrc_def byte_of_char_def)

lemma le_value_le_bytes_4: "le_value (le_bytes 4 w) = unat w" for w :: "32 word"
proof -
  define a where "a = unat w"
  define b where "b = a div 256"
  define c where "c = b div 256"
  define d where "d = c div 256"
  have "a < 16777216 * 256" using unsigned_less [of w] by (simp add: a_def)
  then have "b < 65536 * 256" unfolding b_def by (simp add: less_mult_imp_div_less)
  then have "c < 256 * 256" unfolding c_def by (simp add: less_mult_imp_div_less)
  then have "d < 256" unfolding d_def by (simp add: less_mult_imp_div_less)
  then have d: "d mod 256 = d" by simp
  have c: "c mod 256 + 256 * d = c" unfolding d_def by (rule mod_mult_div_eq)
  have b: "b mod 256 + 256 * c = b" unfolding c_def by (rule mod_mult_div_eq)
  have a: "a mod 256 + 256 * b = a" unfolding b_def by (rule mod_mult_div_eq)
  have a2: "a div 65536 = c" by (simp add: b_def c_def div_mult2_eq)
  have a3: "a div 16777216 = d" by (simp add: b_def c_def d_def div_mult2_eq)
  have "le_value (le_bytes 4 w) =
      a mod 256 + 256 * (a div 256 mod 256 + 256 * (a div 65536 mod 256 +
      256 * (a div 16777216 mod 256)))"
    unfolding a_def
    by (simp add: le_bytes_4 unsigned_ucast_eq unat_drop_bit_eq take_bit_eq_mod drop_bit_eq_div
        unat_div_distrib)
  also have "\<dots> = a mod 256 + 256 * (b mod 256 + 256 * (c mod 256 + 256 * (d mod 256)))"
    by (simp only: a2 a3 b_def [symmetric])
  also have "\<dots> = a" by (simp only: d c b a)
  finally show ?thesis by (simp add: a_def)
qed

subsection \<open>Evaluating the CRC\<close>

text \<open>
  Unfolding rules that fire on numerals only, so that the simplifier computes a CRC from
  the inside out.
\<close>

lemma crc_bit_numeral:
  "crc_bit (numeral n) =
     (if bit (numeral n :: 32 word) 0 then drop_bit 1 (numeral n) XOR 0xEDB88320
      else drop_bit 1 (numeral n))"
  by (simp add: crc_bit_def)

lemma crc_bit_0: "crc_bit 0 = 0"
  by (simp add: crc_bit_def)

lemma crc_bit_1: "crc_bit 1 = 0xEDB88320"
  by (simp add: crc_bit_def)

lemma crc_byte_unfold:
  "crc_byte c b = crc_bit (crc_bit (crc_bit (crc_bit (crc_bit (crc_bit (crc_bit (crc_bit (c XOR ucast b))))))))"
  by (simp add: crc_byte_def eval_nat_numeral)

lemma crc32_unfold: "crc32 bs = foldl crc_byte 0xFFFFFFFF bs XOR 0xFFFFFFFF"
proof -
  have m: "(0xFFFFFFFF :: 32 word) = - 1" by simp
  show ?thesis unfolding m by (simp add: crc32_def)
qed

subsection \<open>Stored blocks decode to their bytes\<close>

lemma bits_value_horner: "bits_value xs = horner_sum of_bool 2 xs"
  by (induction xs) simp_all

lemma bits_value_byte: "bits_value (bits_of_byte b) = unat b"
proof -
  have "bits_value (bits_of_byte b) = horner_sum of_bool 2 (map (bit (unat b)) [0..<8])"
    by (simp add: bits_value_horner bits_of_byte_def bit_unsigned_iff cong: map_cong)
  also have "\<dots> = take_bit 8 (unat b)" by (rule horner_sum_bit_eq_take_bit)
  also have "\<dots> = unat b"
  proof -
    have "unat b < 2 ^ 8" using unsigned_less [of b, where ?'a = nat] by simp
    then show ?thesis by (simp add: take_bit_nat_eq_self)
  qed
  finally show ?thesis .
qed

lemma length_bits_of_byte: "length (bits_of_byte b) = 8"
  by (simp add: bits_of_byte_def)

lemma length_bitstream: "length (bitstream bs) = 8 * length bs"
  by (induction bs) (simp_all add: bitstream_def length_bits_of_byte)

lemma bitstream_Cons: "bitstream (b # bs) = bits_of_byte b @ bitstream bs"
  by (simp add: bitstream_def)

lemma bitstream_append: "bitstream (xs @ ys) = bitstream xs @ bitstream ys"
  by (simp add: bitstream_def)

lemma get_bits_byte: "get_bits 8 (bits_of_byte b @ r) = Some (unat b, r)"
  by (simp add: get_bits_def length_bits_of_byte bits_value_byte)

lemma get_fields_bytes: "get_fields (length x) 8 (bitstream x @ r) = Some (map unat x, r)"
  by (induction x) (simp_all add: bitstream_Cons get_bits_byte bitstream_def)

lemma bits_value_append: "bits_value (xs @ ys) = bits_value xs + 2 ^ length xs * bits_value ys"
  by (induction xs) (simp_all add: algebra_simps)

lemma get_bits_16:
  "get_bits 16 (bitstream (le_bytes 2 w) @ r) = Some (unat w, r)" for w :: "16 word"
proof -
  have "unat w < 256 * 256" using unsigned_less [of w, where ?'a = nat] by simp
  then have "unat w div 256 < 256" by (simp add: less_mult_imp_div_less)
  then have "unat w mod 256 + 256 * (unat w div 256 mod 256) = unat w"
    by (simp add: mod_mult_div_eq)
  then show ?thesis
    by (simp add: get_bits_def le_bytes_2 bitstream_Cons length_bits_of_byte bits_value_append
        bits_value_byte unsigned_ucast_eq unat_drop_bit_eq take_bit_eq_mod drop_bit_eq_div
        unat_div_distrib bitstream_def)
qed

lemma bits_of_byte_1: "bits_of_byte 1 = [True, False, False, False, False, False, False, False]"
  by (simp add: bits_of_byte_def upt_conv_Cons bit_1_iff)

lemma unat_word16: "n < 65536 \<Longrightarrow> unat (word_of_nat n :: 16 word) = n"
  by (simp add: unat_of_nat)

lemma get_fields_2:
  "get_fields 2 n bs =
     (case get_bits n bs of
        None \<Rightarrow> None
      | Some (v, bs1) \<Rightarrow>
          (case get_bits n bs1 of None \<Rightarrow> None | Some (v', bs2) \<Rightarrow> Some ([v, v'], bs2)))"
  by (simp add: numeral_2_eq_2 split: option.splits)

lemma get_fields_len_nlen:
  "get_fields 2 16 (bitstream (le_bytes 2 a @ le_bytes 2 b @ x)) =
     Some ([unat a, unat b], bitstream x)" for a b :: "16 word"
  by (simp add: get_fields_2 bitstream_append get_bits_16)

lemma inflate_stored_block:
  assumes n: "length x < 65536"
  shows "inflate_stored buf ([False, False, False, False, False] @
           bitstream (le_bytes 2 (word_of_nat (length x) :: 16 word) @
                      le_bytes 2 (word_of_nat (65535 - length x) :: 16 word) @ x)) =
         Some (buf @ x, [])"
proof -
  have m: "(5 + 8 * k) mod 8 = (5::nat)" for k by simp
  have l: "length ([False, False, False, False, False] @
           bitstream (le_bytes 2 (word_of_nat (length x) :: 16 word) @
                      le_bytes 2 (word_of_nat (65535 - length x) :: 16 word) @ x)) =
           5 + 8 * (4 + length x)"
    by (simp add: length_bitstream length_le_bytes)
  have u1: "unat (word_of_nat (length x) :: 16 word) = length x"
    using n by (rule unat_word16)
  have u2: "unat (word_of_nat (65535 - length x) :: 16 word) = 65535 - length x"
    by (rule unat_word16) simp
  have g: "get_fields (length x) 8 (bitstream x) = Some (map unat x, [])"
    using get_fields_bytes [of x "[]"] by simp
  have i: "map ((word_of_nat :: nat \<Rightarrow> byte) \<circ> unat) x = x" by (simp add: map_idI)
  have d: "drop 5 ([False, False, False, False, False] @ ys) = ys" for ys :: "bool list"
    by simp
  show ?thesis
    unfolding inflate_stored_def l m d get_fields_len_nlen u1 u2
    using n by (simp add: g i)
qed

lemma inflate_blocks_final_stored:
  "inflate_blocks (Suc k) buf (True # False # False # rest) =
     (case inflate_stored buf rest of None \<Rightarrow> None | Some (b, r) \<Rightarrow> Some (b, r))"
  by (simp split: option.splits)

lemma inflate_dfl_stored:
  assumes n: "length x < 65536"
  shows "inflate (dfl_stored x) = Some x"
proof -
  have fuel: "8 * length (dfl_stored x) = Suc (39 + 8 * length x)"
    by (simp add: dfl_stored_def length_le_bytes)
  have bits: "bitstream (dfl_stored x) =
      True # False # False # ([False, False, False, False, False] @
           bitstream (le_bytes 2 (word_of_nat (length x) :: 16 word) @
                      le_bytes 2 (word_of_nat (65535 - length x) :: 16 word) @ x))"
    by (simp add: dfl_stored_def bitstream_Cons bits_of_byte_1)
  have "inflate_blocks (8 * length (dfl_stored x)) [] (bitstream (dfl_stored x)) = Some (x, [])"
    unfolding fuel bits inflate_blocks_final_stored inflate_stored_block [OF n] by simp
  then show ?thesis by (simp add: inflate_def)
qed

subsection \<open>When the model's run succeeds, and what it writes\<close>

lemma fst_deliver: "fst (deliver s used room bytes) = (if length bytes \<le> room then Z_STREAM_END else Z_OK)"
  by (simp add: deliver_def)

lemma produced_deliver: "fst (snd (snd (deliver s used room bytes))) = take room bytes"
  by (simp add: deliver_def)

lemma ref_deflate_status:
  "fst (deflate_answer (ref_zlib oc True dfl) now head0) =
     (if 49 + length (dfl (take 81 TEXT)) \<le> 256 then Z_STREAM_END else Z_OK)"
  by (simp add: ref_deflate_answer fst_deliver length_run_member)

lemma ref_success:
  assumes run: "main (ref_zlib oc a dfl) now head0 out0 = Some (0, w)"
  shows "a \<and> 49 + length (dfl (take 81 TEXT)) \<le> 256 \<and>
         stdout w = head_bytes now @ le_bytes 2 (crc32 (head_bytes now)) @
                    dfl (take 81 TEXT) @ gzip_trailer (take 81 TEXT)"
proof -
  from success_answers [OF run]
  have i: "fst (init_answer (ref_zlib oc a dfl)) = Z_OK"
    and d: "fst (deflate_answer (ref_zlib oc a dfl) now head0) = Z_STREAM_END" by simp_all
  have a: a
  proof (rule ccontr)
    assume "\<not> a"
    then show False using i ref_init_fail [of oc dfl] by simp
  qed
  from d a have fits: "49 + length (dfl (take 81 TEXT)) \<le> 256"
    by (simp add: ref_deflate_status split: if_splits)
  from main_success [OF i d, of out0] run
  have "stdout w = take 256 (fst (snd (snd (deflate_answer (ref_zlib oc a dfl) now head0))))"
    by auto
  then have "stdout w = take 256 (gzip_member oc dfl (run_state now head0) (take 81 TEXT))"
    using a by (simp add: ref_deflate_answer produced_deliver)
  then have "stdout w = gzip_member oc dfl (run_state now head0) (take 81 TEXT)"
    using fits by (simp add: length_run_member)
  then show ?thesis using a fits by (simp add: run_member)
qed

lemma ref_runs_ok:
  assumes fits: "49 + length (dfl (take 81 TEXT)) \<le> 256"
  shows "\<exists>w. main (ref_zlib oc True dfl) now head0 out0 = Some (0, w)"
proof -
  have i: "fst (init_answer (ref_zlib oc True dfl)) = Z_OK" by (simp add: ref_init_ok)
  have d: "fst (deflate_answer (ref_zlib oc True dfl) now head0) = Z_STREAM_END"
    using fits by (simp add: ref_deflate_status)
  from main_success [OF i d, of out0] show ?thesis by blast
qed

lemma ref_runs_short:
  assumes big: "256 < 49 + length (dfl (take 81 TEXT))"
  shows "\<exists>w. main (ref_zlib oc True dfl) now head0 out0 = Some (1, w) \<and> stdout w = [] \<and>
    calls w = [Init2 Z_OK, SetHeader Z_OK, Deflate Z_OK]"
proof -
  have i: "fst (init_answer (ref_zlib oc True dfl)) = Z_OK" by (simp add: ref_init_ok)
  have d: "fst (deflate_answer (ref_zlib oc True dfl) now head0) = Z_OK"
    using big by (simp add: ref_deflate_status)
  then have d': "fst (deflate_answer (ref_zlib oc True dfl) now head0) \<noteq> Z_STREAM_END" by simp
  from main_deflate_failed [OF i d', of out0] show ?thesis
    by (auto simp add: d ref_header_answer)
qed

lemma length_dfl_stored: "length (dfl_stored x) = 5 + length x"
  by (simp add: dfl_stored_def length_le_bytes)

lemma length_dfl_bytewise: "length (dfl_bytewise x) = (if x = [] then 5 else 6 * length x)"
  by (induction x rule: dfl_bytewise.induct) simp_all

lemma length_text: "length (take 81 TEXT) = 81"
  by (simp add: length_TEXT)

subsection \<open>The claims on the library model\<close>

lemma bytewise_too_big: "256 < 49 + length (dfl_bytewise (take 81 TEXT))"
proof -
  have "length (take 81 TEXT) = 81" by (simp add: length_TEXT)
  moreover from this have "take 81 TEXT \<noteq> []" by auto
  ultimately show ?thesis by (simp only: length_dfl_bytewise) simp
qed

lemma stored_fits: "49 + length (dfl_stored (take 81 TEXT)) \<le> 256"
  by (simp add: length_dfl_stored length_TEXT)


lemma length_gzip_trailer: "length (gzip_trailer x) = 8"
  by (simp add: gzip_trailer_def length_le_bytes)

lemma gunzip_run_member:
  assumes inf: "inflate p = Some x" and len: "length x < 2 ^ 32"
  shows "gunzip (head_bytes now @ le_bytes 2 (crc32 (head_bytes now)) @ p @ gzip_trailer x) =
     Some (\<lparr>i_text = True, i_mtime = le_value (le_bytes 4 now), i_xfl = 0, i_os = 3,
            i_extra = Some [0x78, 0x31, 4, 0, 0x61, 0x62, 0x63, 0x64],
            i_name = Some (map byte_of_char ''foo.bar''),
            i_comment = Some (map byte_of_char ''no comment''),
            i_hcrc = Some (le_value (le_bytes 2 (crc32 (head_bytes now))))\<rparr>, x)"
proof -
  have t1: "le_value (take 4 (gzip_trailer x)) = unat (crc32 x)"
    by (simp add: gzip_trailer_def length_le_bytes le_value_le_bytes_4)
  have "unat (word_of_nat (length x) :: 32 word) = length x"
    using len by (simp add: unat_of_nat)
  then have t2: "le_value (drop 4 (gzip_trailer x)) = length x mod 2 ^ 32"
    using len by (simp add: gzip_trailer_def length_le_bytes le_value_le_bytes_4)
  show ?thesis
    unfolding gunzip_def parse_run_header
    using inf t1 t2 by (simp add: length_gzip_trailer)
qed

text \<open>
  C5. On the library model, in every run that exits with status 0 the header of the
  member written carries the name \<open>foo.bar\<close>, the comment \<open>no comment\<close> and the extra
  field \<open>x1\<close>, 4, 0, \<open>abcd\<close>: a decoder reads them back, and bytes 10 to 38 of the output
  are the length prefix 8, 0, the eight extra bytes and the two NUL-terminated strings.
\<close>

theorem header_fields:
  assumes run: "main (ref_zlib oc a dfl) now head0 out0 = Some (0, w)"
  shows "(\<exists>info rest. parse_header (stdout w) = Some (info, rest) \<and>
            i_name info = Some (map byte_of_char ''foo.bar'') \<and>
            i_comment info = Some (map byte_of_char ''no comment'') \<and>
            i_extra info = Some (map byte_of_char ''x1'' @ [4, 0] @ map byte_of_char ''abcd'')) \<and>
         take 29 (drop 10 (stdout w)) =
           [8, 0] @ (map byte_of_char ''x1'' @ [4, 0] @ map byte_of_char ''abcd'') @
           c_literal ''foo.bar'' @ c_literal ''no comment''"
proof -
  from ref_success [OF run]
  have out: "stdout w = head_bytes now @ le_bytes 2 (crc32 (head_bytes now)) @
                    dfl (take 81 TEXT) @ gzip_trailer (take 81 TEXT)" by simp
  have p: "\<exists>info rest. parse_header (stdout w) = Some (info, rest) \<and>
            i_name info = Some (map byte_of_char ''foo.bar'') \<and>
            i_comment info = Some (map byte_of_char ''no comment'') \<and>
            i_extra info = Some (map byte_of_char ''x1'' @ [4, 0] @ map byte_of_char ''abcd'')"
    unfolding out parse_run_header by (simp add: byte_of_char_def)
  have t: "take 29 (drop 10 (stdout w)) =
           [8, 0] @ (map byte_of_char ''x1'' @ [4, 0] @ map byte_of_char ''abcd'') @
           c_literal ''foo.bar'' @ c_literal ''no comment''"
    unfolding out by (simp add: head_bytes_def le_bytes_4 c_literal_def byte_of_char_def)
  show ?thesis using p t by blast
qed

theorem header_fields_witness:
  "\<exists>w. main (ref_zlib 3 True dfl_stored) 1700000000 zero_head (\<lambda>_. 0) = Some (0, w) \<and>
       take 29 (drop 10 (stdout w)) =
           [8, 0] @ (map byte_of_char ''x1'' @ [4, 0] @ map byte_of_char ''abcd'') @
           c_literal ''foo.bar'' @ c_literal ''no comment''"
proof -
  from ref_runs_ok [where dfl = dfl_stored and oc = 3 and now = 1700000000 and ?head0.0 = zero_head and ?out0.0 = "\<lambda>_. 0", OF stored_fits] obtain w where
    run: "main (ref_zlib 3 True dfl_stored) 1700000000 zero_head (\<lambda>_. 0) = Some (0, w)" by blast
  from header_fields [OF run] run show ?thesis by blast
qed

text \<open>
  C10. On the library model, whatever the OS code of the platform, in every run that exits
  with status 0 the OS byte of the header (byte 9) is 3 and the text flag (bit 0 of the
  flag byte, byte 3) is set.
\<close>

theorem os_byte_and_text_flag:
  assumes run: "main (ref_zlib oc a dfl) now head0 out0 = Some (0, w)"
  shows "stdout w ! 9 = 3 \<and> bit (stdout w ! 3) 0 \<and>
         (\<exists>info rest. parse_header (stdout w) = Some (info, rest) \<and> i_os info = 3 \<and> i_text info)"
proof -
  from ref_success [OF run]
  have out: "stdout w = head_bytes now @ le_bytes 2 (crc32 (head_bytes now)) @
                    dfl (take 81 TEXT) @ gzip_trailer (take 81 TEXT)" by simp
  have p: "\<exists>info rest. parse_header (stdout w) = Some (info, rest) \<and> i_os info = 3 \<and> i_text info"
    unfolding out parse_run_header by simp
  have b: "stdout w ! 9 = 3 \<and> bit (stdout w ! 3) 0"
    unfolding out by (simp add: head_bytes_def le_bytes_4)
  show ?thesis using p b by blast
qed

theorem os_byte_and_text_flag_witness:
  "\<exists>w. main (ref_zlib 11 True dfl_stored) 1700000000 zero_head (\<lambda>_. 0) = Some (0, w) \<and>
       stdout w ! 9 = 3 \<and> bit (stdout w ! 3) 0"
proof -
  from ref_runs_ok [where dfl = dfl_stored and oc = 11 and now = 1700000000 and ?head0.0 = zero_head and ?out0.0 = "\<lambda>_. 0", OF stored_fits] obtain w where
    run: "main (ref_zlib 11 True dfl_stored) 1700000000 zero_head (\<lambda>_. 0) = Some (0, w)" by blast
  from os_byte_and_text_flag [OF run] run show ?thesis by blast
qed

theorem compress_failure_writes_nothing_witness:
  "\<exists>w. main (ref_zlib 3 True dfl_bytewise) 0 zero_head (\<lambda>_. 0) = Some (1, w) \<and>
       Deflate Z_OK \<in> set (calls w) \<and> Z_OK \<noteq> Z_STREAM_END \<and>
       stdout w = [] \<and> (\<forall>n. Fwrite n \<notin> set (calls w))"
proof -
  from ref_runs_short [where dfl = dfl_bytewise and oc = 3 and now = 0 and ?head0.0 = zero_head and ?out0.0 = "\<lambda>_. 0", OF bytewise_too_big] obtain w where
    run: "main (ref_zlib 3 True dfl_bytewise) 0 zero_head (\<lambda>_. 0) = Some (1, w)"
    and c: "calls w = [Init2 Z_OK, SetHeader Z_OK, Deflate Z_OK]" by blast
  have d: "Deflate Z_OK \<in> set (calls w)" by (simp add: c)
  have n: "Z_OK \<noteq> Z_STREAM_END" by simp
  from compress_failure_writes_nothing [OF run d n] run d n show ?thesis by blast
qed

theorem emit_exact_witness:
  "\<exists>w. main (ref_zlib 3 True dfl_stored) 0 zero_head (\<lambda>_. 0) = Some (0, w) \<and>
       length (stdout w) = 256 - unat (avail_out (strm w)) \<and>
       stdout w = take (256 - unat (avail_out (strm w))) (out w)"
proof -
  from ref_runs_ok [where dfl = dfl_stored and oc = 3 and now = 0 and ?head0.0 = zero_head and ?out0.0 = "\<lambda>_. 0", OF stored_fits] obtain w where
    run: "main (ref_zlib 3 True dfl_stored) 0 zero_head (\<lambda>_. 0) = Some (0, w)" by blast
  from emit_exact [OF run] run show ?thesis by blast
qed

theorem init_failure_stops_witness:
  "fst (init_answer (ref_zlib 3 False dfl_stored)) \<noteq> Z_OK \<and>
   (\<exists>w. main (ref_zlib 3 False dfl_stored) 0 zero_head (\<lambda>_. 0) = Some (1, w) \<and>
        calls w = [Init2 Z_MEM_ERROR] \<and> stdout w = [])"
proof -
  have f: "fst (init_answer (ref_zlib 3 False dfl_stored)) \<noteq> Z_OK"
    by (simp add: ref_init_fail)
  from init_failure_stops [OF f, of 0 zero_head "\<lambda>_. 0"] f show ?thesis
    by (simp add: ref_init_fail)
qed

subsection \<open>The fixed Huffman code in closed form\<close>

lemma length_fixed_lengths: "length fixed_lengths = 288"
  by (simp add: fixed_lengths_def)

lemma nth_fixed_lengths:
  "s < 288 \<Longrightarrow> fixed_lengths ! s =
     (if s < 144 then 8 else if s < 256 then 9 else if s < 280 then 7 else 8)"
  by (auto simp add: fixed_lengths_def nth_append)

lemma count_fixed_lengths:
  "length (filter (\<lambda>x. x = l) fixed_lengths) =
     (if l = 8 then 152 else if l = 9 then 112 else if l = 7 then 24 else 0)"
  by (simp add: fixed_lengths_def)

lemma first_code_fixed_low: "l \<le> 7 \<Longrightarrow> first_code fixed_lengths l = 0"
  by (induction l) (simp_all add: count_fixed_lengths)

lemma first_code_fixed_8: "first_code fixed_lengths 8 = 48"
proof -
  have "first_code fixed_lengths (Suc 7) = 48"
    by (simp only: first_code.simps count_fixed_lengths first_code_fixed_low) simp
  then show ?thesis by simp
qed

lemma first_code_fixed_9: "first_code fixed_lengths 9 = 400"
proof -
  have "first_code fixed_lengths (Suc 8) = 400"
    by (simp only: first_code.simps count_fixed_lengths first_code_fixed_8) simp
  then show ?thesis by simp
qed

lemma code_of_fixed:
  assumes "s < 288"
  shows "(fixed_lengths ! s, code_of fixed_lengths s) = fixed_key s"
proof -
  have t: "length (filter (\<lambda>x. x = l) (take s fixed_lengths)) =
      (if l = 8 then min s 144 + (s - 280) else if l = 9 then min (s - 144) 112
       else if l = 7 then min (s - 256) 24 else 0)" for l
    using assms by (auto simp add: fixed_lengths_def min_def)
  show ?thesis
    using assms
    by (auto simp add: code_of_def nth_fixed_lengths t fixed_key_def first_code_fixed_8
        first_code_fixed_9 first_code_fixed_low)
qed


lemma fixed_lit_keys: "fixed_lit = map (\<lambda>s. (fixed_key s, s)) [0..<288]"
proof -
  have "filter (\<lambda>s. fixed_lengths ! s \<noteq> 0) [0..<288] = [0..<288]"
    by (rule filter_True) (auto simp add: nth_fixed_lengths)
  then have "huffman_of fixed_lengths =
      map (\<lambda>s. ((fixed_lengths ! s, code_of fixed_lengths s), s)) [0..<288]"
    by (simp add: huffman_of_def length_fixed_lengths)
  also have "\<dots> = map (\<lambda>s. (fixed_key s, s)) [0..<288]"
    by (rule map_cong) (simp_all add: code_of_fixed)
  finally show ?thesis by (simp add: fixed_lit_def fixed_lengths_def)
qed

lemma map_of_keyed:
  assumes "inj_on k (set xs)" and "s \<in> set xs"
  shows "map_of (map (\<lambda>s. (k s, s)) xs) (k s) = Some s"
  using assms by (induction xs) (auto simp add: inj_on_def)

lemma map_of_keyed_None:
  assumes "\<forall>s \<in> set xs. k s \<noteq> key"
  shows "map_of (map (\<lambda>s. (k s, s)) xs) key = None"
  using assms by (induction xs) auto

lemma inj_fixed_key: "inj_on fixed_key (set [0..<288])"
  by (rule inj_onI) (auto simp add: fixed_key_def split: if_splits)

lemma map_of_fixed_lit: "map_of fixed_lit (l, c) = fixed_lookup l c"
proof -
  have some: "map_of fixed_lit (fixed_key s) = Some s" if "s < 288" for s
    unfolding fixed_lit_keys using that by (intro map_of_keyed inj_fixed_key) simp
  consider (a) "l = 7" "c < 24" | (b) "l = 8" "48 \<le> c" "c < 192" | (c) "l = 8" "192 \<le> c" "c < 200"
    | (d) "l = 9" "400 \<le> c" "c < 512"
    | (e) "\<not> (l = 7 \<and> c < 24)" "\<not> (l = 8 \<and> 48 \<le> c \<and> c < 200)" "\<not> (l = 9 \<and> 400 \<le> c \<and> c < 512)"
    by linarith
  then show ?thesis
  proof cases
    case a
    then have "fixed_key (256 + c) = (l, c)" by (simp add: fixed_key_def)
    with some [of "256 + c"] a show ?thesis by (simp add: fixed_lookup_def)
  next
    case b
    then have "fixed_key (c - 48) = (l, c)" by (simp add: fixed_key_def)
    with some [of "c - 48"] b show ?thesis by (simp add: fixed_lookup_def)
  next
    case c
    then have "fixed_key (c + 88) = (l, c)" by (simp add: fixed_key_def)
    with some [of "c + 88"] c show ?thesis by (simp add: fixed_lookup_def)
  next
    case d
    then have "fixed_key (c - 256) = (l, c)" by (auto simp add: fixed_key_def)
    with some [of "c - 256"] d show ?thesis by (simp add: fixed_lookup_def)
  next
    case e
    have "map_of fixed_lit (l, c) = None"
      unfolding fixed_lit_keys using e
      by (intro map_of_keyed_None) (auto simp add: fixed_key_def split: if_splits)
    with e show ?thesis by (auto simp add: fixed_lookup_def)
  qed
qed

lemma fixed_dist_keys: "fixed_dist = map (\<lambda>s. ((5, s), s)) [0..<30]"
proof -
  have n: "replicate 30 5 ! s = (5::nat)" if "s < 30" for s using that by simp
  have c: "length (filter (\<lambda>x. x = l) (replicate 30 (5::nat))) = (if l = 5 then 30 else 0)" for l
    by simp
  have low: "l \<le> 5 \<Longrightarrow> first_code (replicate 30 5) l = 0" for l
    by (induction l) (simp_all add: c)
  have k: "code_of (replicate 30 5) s = s" if "s < 30" for s
    using that by (simp add: code_of_def low)
  have "filter (\<lambda>s. replicate 30 (5::nat) ! s \<noteq> 0) [0..<30] = [0..<30]"
    by (rule filter_True) simp
  then have "huffman_of (replicate 30 5) =
      map (\<lambda>s. ((replicate 30 5 ! s, code_of (replicate 30 5) s), s)) [0..<30]"
    by (simp add: huffman_of_def)
  also have "\<dots> = map (\<lambda>s. ((5, s), s)) [0..<30]"
    by (rule map_cong) (simp_all add: k)
  finally show ?thesis by (simp add: fixed_dist_def)
qed

lemma map_of_fixed_dist: "map_of fixed_dist (l, c) = (if l = 5 \<and> c < 30 then Some c else None)"
proof (cases "l = 5 \<and> c < 30")
  case True
  have "inj_on (\<lambda>s. (5::nat, s)) (set [0..<30])" by (rule inj_onI) simp
  from map_of_keyed [OF this, of c] True show ?thesis by (simp add: fixed_dist_keys)
next
  case False
  have "map_of fixed_dist (l, c) = None"
    unfolding fixed_dist_keys using False by (intro map_of_keyed_None) auto
  with False show ?thesis by simp
qed

subsection \<open>The payload zlib emits inflates to the text\<close>

text \<open>
  Rules that let the simplifier run the decoder on a concrete block, symbol by symbol.
\<close>

lemma bitstream_text_payload: "bitstream text_payload = True # True # False # payload_bits"
  by (simp add: bitstream_def text_payload_def bits_of_byte_def upt_conv_Cons payload_bits_def)

lemma text_bytes: "take 81 TEXT =
     [84, 104, 105, 115, 32, 105, 115, 32, 97, 32, 116, 101, 115, 116, 32, 111,
      102, 32, 116, 104, 101, 32, 101, 109, 101, 114, 103, 101, 110, 99, 121, 32,
      98, 114, 111, 97, 100, 99, 97, 115, 116, 32, 115, 121, 115, 116, 101, 109,
      46, 10, 82, 101, 109, 101, 109, 98, 101, 114, 44, 32, 116, 104, 105, 115,
      32, 105, 115, 32, 111, 110, 108, 121, 32, 97, 32, 116, 101, 115, 116, 46,
      10]"
  by (simp add: TEXT_def c_literal_def byte_of_char_def)

lemma inflate_codes_numeral:
  "inflate_codes (numeral n) lt dt buf bs =
     (case decode_sym lt 0 0 bs of
        None \<Rightarrow> None
      | Some (sy, bs1) \<Rightarrow>
          if sy < 256 then inflate_codes (pred_numeral n) lt dt (buf @ [word_of_nat sy]) bs1
          else if sy = 256 then Some (buf, bs1)
          else if sy > 285 then None
          else
            (case get_bits (len_extra ! (sy - 257)) bs1 of
               None \<Rightarrow> None
             | Some (le, bs2) \<Rightarrow>
                 (case decode_sym dt 0 0 bs2 of
                    None \<Rightarrow> None
                  | Some (ds, bs3) \<Rightarrow>
                      if ds > 29 then None
                      else
                        (case get_bits (dist_extra ! ds) bs3 of
                           None \<Rightarrow> None
                         | Some (de, bs4) \<Rightarrow>
                             let d = dist_base ! ds + de
                             in if d > length buf then None
                                else inflate_codes (pred_numeral n) lt dt
                                       (lz_copy (len_base ! (sy - 257) + le) d buf) bs4))))"
proof -
  have "numeral n = Suc (pred_numeral n)" by (rule numeral_eq_Suc)
  then show ?thesis by (simp only: inflate_codes.simps)
qed

lemma decode_sym_step:
  "decode_sym h len code (b # bs) =
     (case map_of h (Suc len, 2 * code + of_bool b) of
        Some s \<Rightarrow> Some (s, bs)
      | None \<Rightarrow> if Suc len \<ge> 15 then None else decode_sym h (Suc len) (2 * code + of_bool b) bs)"
  by (simp add: Let_def)

lemma lz_copy_numeral:
  "lz_copy (numeral n) d buf = lz_copy (pred_numeral n) d (buf @ [buf ! (length buf - d)])"
proof -
  have "numeral n = Suc (pred_numeral n)" by (rule numeral_eq_Suc)
  then show ?thesis by (simp only: lz_copy.simps)
qed

lemma lz_copy_1: "lz_copy (Suc 0) d buf = buf @ [buf ! (length buf - d)]"
  by simp

lemma lz_copy_0: "lz_copy 0 d buf = buf"
  by simp

lemmas eval_rules = inflate_codes_numeral decode_sym_step map_of_fixed_lit map_of_fixed_dist
  fixed_lookup_def get_bits_def len_extra_def len_base_def dist_base_def dist_extra_def
  lz_copy_numeral lz_copy_1 lz_copy_0 Let_def

lemma inflate_codes_payload:
  "inflate_codes 549 fixed_lit fixed_dist [] payload_bits =
     Some ([84, 104, 105, 115, 32, 105, 115, 32, 97, 32, 116, 101, 115, 116, 32, 111,
      102, 32, 116, 104, 101, 32, 101, 109, 101, 114, 103, 101, 110, 99, 121, 32,
      98, 114, 111, 97, 100, 99, 97, 115, 116, 32, 115, 121, 115, 116, 101, 109,
      46, 10, 82, 101, 109, 101, 109, 98, 101, 114, 44, 32, 116, 104, 105, 115,
      32, 105, 115, 32, 111, 110, 108, 121, 32, 97, 32, 116, 101, 115, 116, 46,
      10], [False, False, False])"
  by (simp add: eval_rules payload_bits_def del: decode_sym.simps inflate_codes.simps lz_copy.simps)


lemma length_payload_bits: "length payload_bits = 549"
  by (simp add: payload_bits_def)

lemma inflate_blocks_final_fixed:
  "inflate_blocks (Suc k) buf (True # True # False # rest) =
     (case inflate_codes (length rest) fixed_lit fixed_dist buf rest of
        None \<Rightarrow> None
      | Some (b, r) \<Rightarrow> Some (b, r))"
  by (simp split: option.splits)

lemma inflate_text_payload: "inflate text_payload = Some (take 81 TEXT)"
proof -
  have fuel: "8 * length text_payload = Suc 551" by (simp add: text_payload_def)
  have "inflate_blocks (8 * length text_payload) [] (bitstream text_payload) =
      Some (take 81 TEXT, [False, False, False])"
    unfolding fuel bitstream_text_payload inflate_blocks_final_fixed length_payload_bits
      inflate_codes_payload text_bytes
    by simp
  then show ?thesis by (simp add: inflate_def)
qed

lemma zlib_fits: "49 + length (zlib_encoder (take 81 TEXT)) \<le> 256"
  by (simp add: zlib_encoder_def text_payload_def)

lemma crc32_check_value: "crc32 (map byte_of_char ''123456789'') = 0xCBF43926"
  by (simp add: crc32_unfold crc_byte_unfold crc_bit_numeral crc_bit_0 crc_bit_1 byte_of_char_def)

lemma crc32_text: "crc32 (take 81 TEXT) = 0x175F2D39"
  unfolding text_bytes
  by (simp add: crc32_unfold crc_byte_unfold crc_bit_numeral crc_bit_0 crc_bit_1)

lemma trailer_text: "gzip_trailer (take 81 TEXT) = [0x39, 0x2D, 0x5F, 0x17, 81, 0, 0, 0]"
proof -
  have "length (take 81 TEXT) = 81" by (simp add: length_TEXT)
  then show ?thesis by (simp add: gzip_trailer_def crc32_text le_bytes_4)
qed

text \<open>
  C1. On the library model with the encoder above: in every run that exits with status 0,
  the gzip decoder applied to standard output yields exactly the text constant without its
  terminating NUL (81 bytes), and the last eight bytes written are the CRC-32 of that text
  (\<open>0x175F2D39\<close>) and its length (81), each as four little-endian bytes.
\<close>

theorem output_decompresses_to_text:
  assumes run: "main (ref_zlib oc a zlib_encoder) now head0 out0 = Some (0, w)"
  shows "(\<exists>info. gunzip (stdout w) = Some (info, take (strlen TEXT) TEXT)) \<and>
         drop (length (stdout w) - 8) (stdout w) =
           le_bytes 4 (crc32 (take (strlen TEXT) TEXT)) @
           le_bytes 4 (word_of_nat (strlen TEXT) :: 32 word) \<and>
         drop (length (stdout w) - 8) (stdout w) = [0x39, 0x2D, 0x5F, 0x17, 81, 0, 0, 0] \<and>
         strlen TEXT = 81 \<and> take (strlen TEXT) TEXT @ [0] = TEXT"
proof -
  from ref_success [OF run]
  have out: "stdout w = head_bytes now @ le_bytes 2 (crc32 (head_bytes now)) @
                    zlib_encoder (take 81 TEXT) @ gzip_trailer (take 81 TEXT)" by simp
  have inf: "inflate (zlib_encoder (take 81 TEXT)) = Some (take 81 TEXT)"
    by (simp add: zlib_encoder_def inflate_text_payload)
  have len: "length (take 81 TEXT) < 2 ^ 32" by (simp add: length_TEXT)
  have g: "\<exists>info. gunzip (stdout w) = Some (info, take (strlen TEXT) TEXT)"
    unfolding out strlen_TEXT gunzip_run_member [OF inf len] by blast
  have d: "drop (length (stdout w) - 8) (stdout w) = gzip_trailer (take 81 TEXT)"
    unfolding out by (simp add: length_gzip_trailer)
  then have tr: "drop (length (stdout w) - 8) (stdout w) =
           le_bytes 4 (crc32 (take (strlen TEXT) TEXT)) @
           le_bytes 4 (word_of_nat (strlen TEXT) :: 32 word)"
    by (simp add: gzip_trailer_def strlen_TEXT length_TEXT)
  have ex: "drop (length (stdout w) - 8) (stdout w) = [0x39, 0x2D, 0x5F, 0x17, 81, 0, 0, 0]"
    by (simp only: d trailer_text)
  have nul: "take (strlen TEXT) TEXT @ [0] = TEXT"
    by (simp add: strlen_def TEXT_def c_literal_def byte_of_char_def)
  show ?thesis using g tr ex nul strlen_TEXT by blast
qed

theorem output_decompresses_to_text_witness:
  "\<exists>w. main (ref_zlib 3 True zlib_encoder) 1700000000 zero_head zero_out = Some (0, w) \<and>
       (\<exists>info. gunzip (stdout w) = Some (info, take (strlen TEXT) TEXT)) \<and>
       drop (length (stdout w) - 8) (stdout w) = [0x39, 0x2D, 0x5F, 0x17, 81, 0, 0, 0]"
proof -
  from ref_runs_ok [where dfl = zlib_encoder and oc = 3 and now = 1700000000
      and ?head0.0 = zero_head and ?out0.0 = zero_out, OF zlib_fits]
  obtain w where
    run: "main (ref_zlib 3 True zlib_encoder) 1700000000 zero_head zero_out = Some (0, w)"
    by blast
  from output_decompresses_to_text [OF run] run show ?thesis by blast
qed

subsection \<open>What varies between runs, and the teardown\<close>













end
